theory Spec2Isabelle
  imports Main "HOL-Library.Sublist"
begin

section \<open>Tokens, items and errors\<close>

text \<open>
  Modelled from the spec: the declaration of the enum \<open>Token\<close> is not among the source
  files. The constants are the ones the source names (\<open>TokNil\<close>, \<open>TokUnsupp\<close>,
  \<open>Identifier\<close>, \<open>IdentifierWithWildcard\<close>, \<open>IdentifierAll\<close>, \<open>LitEof\<close>,
  \<open>KeywordAnd\<close>, \<open>KeywordOr\<close>, \<open>KeywordNot\<close>, \<open>StOne\<close>, \<open>StAll\<close>) together with
  the parentheses and the word \<open>of\<close> of the spec's token kinds (\<open>LParen\<close>, \<open>RParen\<close>,
  \<open>KeywordOf\<close>).
\<close>

datatype Token =
    TokNil
  | TokUnsupp
  | Identifier
  | IdentifierWithWildcard
  | IdentifierAll
  | LitEof
  | LParen
  | RParen
  | KeywordAnd
  | KeywordOr
  | KeywordNot
  | KeywordOf
  | StOne
  | StAll

text \<open>
  Modelled from the spec: the struct \<open>Item\<close> that the lexer emits is not among the source
  files; the source reads its fields \<open>item.T\<close> (the kind) and \<open>item.Val\<close> (the raw text).
\<close>

record Item =
  T :: Token
  Val :: string

type_synonym tokens = "Item list"

text \<open>
  Go's \<open>error\<close> values. The named error structs of \<open>sigma.go\<close> are constructors of their
  own; an error made by \<open>fmt.Errorf\<close> is \<open>Errorf\<close> with its format string and its
  arguments, unrendered (a \<open>Token\<close> argument stands for its \<open>String()\<close>, which is not
  among the source files).

  Modelled from the spec: the package \<open>types\<close> is not among the source files. The error
  the validator returns, \<open>types.ErrUnsupportedToken{Msg: item.Val}\<close>, is of a type of that
  package, another type than the \<open>ErrUnsupportedToken\<close> of \<open>sigma.go\<close>; it is the
  constructor \<open>Types_ErrUnsupportedToken\<close>, with the raw text the spec says it carries.
\<close>

datatype fmtarg = ATok Token | AStr string | AStrs "string list" | AInt int

datatype error =
    ErrInvalidRegex string error
  | ErrMissingDetection
  | ErrEmptyDetection
  | ErrMissingCondition
  | ErrIncompleteDetection string "string list" string
  | ErrUnsupportedToken string
  | ErrWip
  | Types_ErrUnsupportedToken string
  | Errorf string "fmtarg list"

section \<open>The token-sequence validator\<close>

text \<open>
  The fields of \<open>parser\<close> that \<open>collectAndValidateTokenSequences\<close> reads and writes:
  the collected tokens and the kind of the previous item. The lexer is represented by
  the list of items its channel \<open>p.lex.items\<close> delivers before it is closed; the
  adjacency table \<open>validTokenSequence\<close> is not among the source files and is a
  parameter \<open>vts\<close> of the model.
\<close>

record parser =
  tokens :: tokens
  previous :: Token

text \<open>
  The body of the \<open>for item := range p.lex.items\<close> loop. The result is the returned
  error (\<open>None\<close> when the loop runs to the end of the channel) and the parser as the
  loop left it.
\<close>

fun collectLoop ::
  "(Token \<Rightarrow> Token \<Rightarrow> bool) \<Rightarrow> parser \<Rightarrow> Item list \<Rightarrow> error option \<times> parser" where
  "collectLoop vts p [] = (None, p)"
| "collectLoop vts p (item # rest) =
     (if T item = TokUnsupp then (Some (Types_ErrUnsupportedToken (Val item)), p)
      else if \<not> vts (previous p) (T item) then
        (Some (Errorf ''invalid token sequence %s -> %s. Value: %s''
                 [ATok (previous p), ATok (T item), AStr (Val item)]), p)
      else collectLoop vts
             (p\<lparr>tokens := (if T item \<noteq> LitEof then tokens p @ [item] else tokens p),
                previous := T item\<rparr>) rest)"

definition collectAndValidateTokenSequences ::
  "(Token \<Rightarrow> Token \<Rightarrow> bool) \<Rightarrow> parser \<Rightarrow> Item list \<Rightarrow> error option \<times> parser" where
  "collectAndValidateTokenSequences vts p items =
     (case collectLoop vts p items of
        (Some err, p') \<Rightarrow> (Some err, p')
      | (None, p') \<Rightarrow>
          if previous p' \<noteq> LitEof then
            (Some (Errorf ''last element should be EOF, got %s'' [ATok (previous p')]), p')
          else (None, p'))"

text \<open>
  Modelled from the spec: \<open>validTokenSequence\<close> is not among the source files, and the
  spec gives the table by example only (an identifier may not follow an identifier, an
  operator may not follow an operator, a closing parenthesis may not follow an opening
  one). The theorems below take the table as a parameter. This instance serves to run
  the validator on concrete streams: an operand may be followed by \<open>and\<close>, \<open>or\<close>, a closing
  parenthesis or the end of input; the start (the kind \<open>TokNil\<close>), an operator or an
  opening parenthesis may be followed by \<open>not\<close>, an identifier, an opening parenthesis
  or a quantifier; a quantifier is followed by \<open>of\<close>, and \<open>of\<close> by an identifier or
  \<open>them\<close>.
\<close>

fun sampleTable :: "Token \<Rightarrow> Token \<Rightarrow> bool" where
  "sampleTable t1 t2 =
     (if t2 \<in> {Identifier, IdentifierWithWildcard} then
        t1 \<in> {TokNil, LParen, KeywordAnd, KeywordOr, KeywordNot, KeywordOf}
      else if t2 \<in> {LParen, StOne, StAll} then
        t1 \<in> {TokNil, LParen, KeywordAnd, KeywordOr, KeywordNot}
      else if t2 = KeywordNot then t1 \<in> {TokNil, LParen, KeywordAnd, KeywordOr}
      else if t2 \<in> {KeywordAnd, KeywordOr, RParen, LitEof} then
        t1 \<in> {Identifier, IdentifierWithWildcard, IdentifierAll, RParen}
      else if t2 = KeywordOf then t1 \<in> {StOne, StAll}
      else if t2 = IdentifierAll then t1 = KeywordOf
      else False)"

text \<open>
  Every pair of neighbours of a list of kinds is in the table.
\<close>

fun adjacentOk :: "(Token \<Rightarrow> Token \<Rightarrow> bool) \<Rightarrow> Token list \<Rightarrow> bool" where
  "adjacentOk vts (a # b # ks) = (vts a b \<and> adjacentOk vts (b # ks))"
| "adjacentOk vts ks = True"

text \<open>
  The invariant the spec gives for a TokenStream: never empty, exactly one \<open>Eof\<close>, and
  it is last.
\<close>

definition tokenStreamInvariant :: "tokens \<Rightarrow> bool" where
  "tokenStreamInvariant ts =
     (ts \<noteq> [] \<and> length (filter (\<lambda>item. T item = LitEof) ts) = 1 \<and> T (last ts) = LitEof)"

section \<open>Detection and search expressions\<close>

text \<open>
  The values an \<open>interface{}\<close> of a Detection holds after decoding: nothing, a string,
  a list, or a map with string keys.
\<close>

datatype content =
    CNil
  | CString string
  | CList "content list"
  | CMap "(string \<times> content) list"

type_synonym Detection = "string \<rightharpoonup> content"

datatype SearchExprType = ExprUnk | ExprSelection | ExprKeywords

record SearchExpr =
  Name :: string
  Type :: SearchExprType
  Content :: content

text \<open>
  Go's map is a reference and \<open>Guess\<close> writes through a pointer, so the operations run
  on an explicit memory: \<open>det\<close> is the map that \<open>d\<close>, \<open>data\<close> and \<open>p.sigma\<close> refer to,
  \<open>exprs\<close> holds the \<open>SearchExpr\<close> objects allocated so far, and a \<open>*SearchExpr\<close> is
  an index into \<open>exprs\<close> (\<open>None\<close> for \<open>nil\<close>). The two kinds of object are kept apart
  because Go's types keep them apart. Every assignment of the source is an update of
  this memory.
\<close>

record memory =
  det :: Detection
  exprs :: "SearchExpr list"

definition newSearchExpr :: "SearchExpr \<Rightarrow> memory \<Rightarrow> nat \<times> memory" where
  "newSearchExpr e m = (length (exprs m), m\<lparr>exprs := exprs m @ [e]\<rparr>)"

text \<open>
  \<open>func (s *SearchExpr) Guess() *SearchExpr\<close>: the assignment to \<open>s.Type\<close> is an
  update of the object at \<open>s\<close>. The source calls it on objects it has just allocated.
\<close>

definition Guess :: "nat \<Rightarrow> memory \<Rightarrow> nat \<times> memory" where
  "Guess s m =
     (if prefix ''keyword'' (Name (exprs m ! s)) then
        (s, m\<lparr>exprs := (exprs m)[s := (exprs m ! s)\<lparr>Type := ExprKeywords\<rparr>]\<rparr>)
      else
        (s, m\<lparr>exprs := (exprs m)[s := (exprs m ! s)\<lparr>Type := ExprSelection\<rparr>]\<rparr>))"

text \<open>
  \<open>func (d Detection) Get(key string) *SearchExpr\<close>.
\<close>

definition Get :: "string \<Rightarrow> memory \<Rightarrow> nat option \<times> memory" where
  "Get key m =
     (case det m key of
        Some val \<Rightarrow>
          (case newSearchExpr \<lparr>Name = key, Type = ExprUnk, Content = val\<rparr> m of
             (e, m1) \<Rightarrow> (case Guess e m1 of (s, m2) \<Rightarrow> (Some s, m2)))
      | None \<Rightarrow> (None, m))"

text \<open>
  \<open>func (d Detection) Fields() <-chan SearchExpr\<close>: the loop of the sending goroutine.
  Go leaves the order of \<open>range\<close> over a map open, so the keys come in an order \<open>ks\<close>
  given from outside (an enumeration of the map's keys); the result is the sequence of
  values sent on the channel.
\<close>

fun Fields :: "string list \<Rightarrow> memory \<Rightarrow> SearchExpr list \<times> memory" where
  "Fields [] m = ([], m)"
| "Fields (k # ks) m =
     (case det m k of
        None \<Rightarrow> Fields ks m
      | Some v \<Rightarrow>
          if k \<noteq> ''condition'' then
            (case newSearchExpr \<lparr>Name = k, Type = ExprUnk, Content = v\<rparr> m of
               (e, m1) \<Rightarrow>
                 (case Guess e m1 of
                    (s, m2) \<Rightarrow>
                      (case Fields ks m2 of (out, m3) \<Rightarrow> (exprs m2 ! s # out, m3))))
          else Fields ks m)"

section \<open>The condition parser\<close>

text \<open>
  Modelled from the spec: the package \<open>match\<close> is not among the source files. A
  \<open>match.Branch\<close> is what the leaf builder returns (\<open>Matcher\<close>, over the builder's own
  matchers \<open>'m\<close>) or a \<open>match.NodeNot\<close> around a branch, the one node the source builds.
\<close>

datatype 'm Branch = Matcher 'm | NodeNot "'m Branch"

text \<open>
  Modelled from the spec: \<open>rule.Config\<close> is not among the source files; the source reads
  its flag \<open>LowerCase\<close>.
\<close>

record Config =
  LowerCase :: bool

text \<open>
  A call either returns or panics.
\<close>

datatype 'a outcome = Returns 'a | Panics

text \<open>
  Modelled from the spec: the method \<open>tokens.contains\<close> is not among the source files;
  it tells whether some item of the stream has the given kind.
\<close>

definition contains :: "tokens \<Rightarrow> Token \<Rightarrow> bool" where
  "contains t k = list_ex (\<lambda>item. T item = k) t"

text \<open>
  The \<open>for _, item := range t\<close> loop of \<open>parseSimpleSearch\<close>, with the three local
  variables \<open>negated\<close>, \<open>rules\<close> and \<open>modifiers\<close> as its state. The leaf builder
  \<open>newRuleMatcherFromIdent\<close> is not among the source files and is the parameter
  \<open>nrm\<close>: it receives the pointer \<open>Get\<close> returned and the flag, runs on the memory and
  returns a branch or an error.
\<close>

fun simpleSearchLoop ::
  "(nat option \<Rightarrow> bool \<Rightarrow> memory \<Rightarrow> (error + 'm Branch) \<times> memory) \<Rightarrow>
   tokens \<Rightarrow> Config \<Rightarrow> bool \<times> 'm Branch list \<times> Token list \<Rightarrow> memory \<Rightarrow>
   (error + bool \<times> 'm Branch list \<times> Token list) \<times> memory" where
  "simpleSearchLoop nrm [] c (negated, rules, modifiers) m =
     (Inr (negated, rules, modifiers), m)"
| "simpleSearchLoop nrm (item # rest) c (negated, rules, modifiers) m =
     (case T item of
        KeywordNot \<Rightarrow> simpleSearchLoop nrm rest c (True, rules, modifiers) m
      | KeywordAnd \<Rightarrow>
          simpleSearchLoop nrm rest c (negated, rules, modifiers @ [KeywordAnd]) m
      | KeywordOr \<Rightarrow>
          simpleSearchLoop nrm rest c (negated, rules, modifiers @ [KeywordOr]) m
      | Identifier \<Rightarrow>
          (case Get (Val item) m of
             (e, m1) \<Rightarrow>
               (case nrm e (LowerCase c) m1 of
                  (Inl err, m2) \<Rightarrow> (Inl err, m2)
                | (Inr r, m2) \<Rightarrow>
                    simpleSearchLoop nrm rest c
                      (False,
                       rules @ [if negated then NodeNot r else r],
                       (if int (length modifiers) - 1 \<noteq> int (length rules)
                        then modifiers @ [TokNil] else modifiers)) m2))
      | _ \<Rightarrow> simpleSearchLoop nrm rest c (negated, rules, modifiers) m)"

definition parseSimpleSearch ::
  "(nat option \<Rightarrow> bool \<Rightarrow> memory \<Rightarrow> (error + 'm Branch) \<times> memory) \<Rightarrow>
   tokens \<Rightarrow> Config \<Rightarrow> memory \<Rightarrow> (error + 'm Branch) \<times> memory" where
  "parseSimpleSearch nrm t c m =
     (case simpleSearchLoop nrm t c (False, [], [TokNil]) m of
        (Inl err, m') \<Rightarrow> (Inl err, m')
      | (Inr l, m') \<Rightarrow> (Inl (Errorf ''WIP'' []), m'))"

text \<open>
  \<open>parseSearch\<close>. The group finder \<open>newGroupOffsetInTokens\<close> is not among the source
  files and is the parameter \<open>gof\<close>; it returns an error or the groups and the flag
  \<open>ok\<close>. The printing is left out, but not the type assertion
  \<open>data["condition"].(string)\<close> it evaluates, which panics unless the key
  \<open>condition\<close> holds a string.
\<close>

definition parseSearch ::
  "(tokens \<Rightarrow> error + 'g \<times> bool) \<Rightarrow>
   (nat option \<Rightarrow> bool \<Rightarrow> memory \<Rightarrow> (error + 'm Branch) \<times> memory) \<Rightarrow>
   tokens \<Rightarrow> Config \<Rightarrow> memory \<Rightarrow> (error + 'm Branch) outcome \<times> memory" where
  "parseSearch gof nrm t c m =
     (if contains t IdentifierAll then
        (Returns (Inl (Errorf ''TODO - THEM identifier'' [])), m)
      else if contains t IdentifierWithWildcard then
        (Returns (Inl (Errorf ''TODO - wildcard identifier'' [])), m)
      else if contains t StOne \<or> contains t StAll then
        (Returns (Inl (Errorf ''TODO - X of statement'' [])), m)
      else
        (case gof t of
           Inl err \<Rightarrow> (Returns (Inl err), m)
         | Inr (groups, ok) \<Rightarrow>
             if ok then
               (case det m ''condition'' of
                  Some (CString s) \<Rightarrow>
                    (Returns (Inl (Errorf ''TODO - implement parsing sub-groups recursively'' [])), m)
                | _ \<Rightarrow> (Panics, m))
             else
               (case parseSimpleSearch nrm t c m of (res, m') \<Rightarrow> (Returns res, m'))))"

text \<open>
  \<open>func (p *parser) run() error\<close>. The lexer \<open>p.lex\<close> is the argument \<open>lx\<close>:
  \<open>None\<close> when the pointer is \<open>nil\<close>, and otherwise the items its channel delivers.
  The Detection \<open>p.sigma\<close> is the map of the memory, and the configuration handed to
  \<open>parseSearch\<close> is the zero value \<open>rule.Config{}\<close>.
\<close>

definition run ::
  "(Token \<Rightarrow> Token \<Rightarrow> bool) \<Rightarrow> (tokens \<Rightarrow> error + 'g \<times> bool) \<Rightarrow>
   (nat option \<Rightarrow> bool \<Rightarrow> memory \<Rightarrow> (error + 'm Branch) \<times> memory) \<Rightarrow>
   Item list option \<Rightarrow> parser \<Rightarrow> memory \<Rightarrow> error option outcome \<times> parser \<times> memory" where
  "run vts gof nrm lx p m =
     (case lx of
        None \<Rightarrow>
          (Returns (Some (Errorf ''cannot run condition parser, lexer not initialized'' [])), p, m)
      | Some items \<Rightarrow>
          (case collectAndValidateTokenSequences vts p items of
             (Some err, p') \<Rightarrow> (Returns (Some err), p', m)
           | (None, p') \<Rightarrow>
               (case parseSearch gof nrm (tokens p') \<lparr>LowerCase = False\<rparr> m of
                  (Panics, m') \<Rightarrow> (Panics, p', m')
                | (Returns (Inl err), m') \<Rightarrow> (Returns (Some err), p', m')
                | (Returns (Inr b), m') \<Rightarrow> (Returns None, p', m'))))"

text \<open>
  Modelled from the spec: \<open>newGroupOffsetInTokens\<close> is not among the source files. The
  spec's group resolver scans once from left to right, keeps the open parentheses,
  records for every closed group its span of token offsets and its nesting depth
  (1 at the top level), and fails on a closing parenthesis with none open and on an
  opening one left open at the end. The flag tells whether any group was found.
  The theorems below take the group finder as a parameter; this one serves to run the
  parser on concrete streams.
\<close>

record GroupSpan =
  start_offset :: nat
  end_offset :: nat
  depth :: nat

fun groupScan :: "tokens \<Rightarrow> nat \<Rightarrow> nat list \<Rightarrow> GroupSpan list \<Rightarrow> error + GroupSpan list" where
  "groupScan [] i opened acc =
     (case opened of
        [] \<Rightarrow> Inr acc
      | b # bs \<Rightarrow> Inl (Errorf ''unexpected end of condition'' [AInt (int b)]))"
| "groupScan (item # rest) i opened acc =
     (if T item = LParen then groupScan rest (i + 1) (i # opened) acc
      else if T item = RParen then
        (case opened of
           [] \<Rightarrow> Inl (Errorf ''unmatched closing parenthesis'' [AInt (int i)])
         | b # bs \<Rightarrow>
             groupScan rest (i + 1) bs
               (acc @ [\<lparr>start_offset = b, end_offset = i, depth = length opened\<rparr>]))
      else groupScan rest (i + 1) opened acc)"

definition newGroupOffsetInTokens :: "tokens \<Rightarrow> error + GroupSpan list \<times> bool" where
  "newGroupOffsetInTokens t =
     (case groupScan t 0 [] [] of
        Inl err \<Rightarrow> Inl err
      | Inr groups \<Rightarrow> Inr (groups, groups \<noteq> []))"

text \<open>
  Modelled from the spec: \<open>newRuleMatcherFromIdent\<close> is not among the source files. The
  theorems below take the leaf builder as a parameter; this stand-in serves to run the
  parser on concrete streams. It fails on \<open>nil\<close>, the identifier the Detection does
  not have, and otherwise makes the search expression itself the leaf, without
  touching the memory; the matchers of the spec's leaf builder are not modelled.
\<close>

definition sampleLeafBuilder ::
  "nat option \<Rightarrow> bool \<Rightarrow> memory \<Rightarrow> (error + SearchExpr Branch) \<times> memory" where
  "sampleLeafBuilder e lowercase m =
     (case e of
        None \<Rightarrow> (Inl (Errorf ''unknown identifier'' []), m)
      | Some a \<Rightarrow> (Inr (Matcher (exprs m ! a)), m))"

section \<open>Rule groups and rule sets\<close>

text \<open>
  \<open>RawRule\<close> with the fields of the source, the three untyped ones left out;
  \<open>Logsource_Product\<close> is \<open>Logsource.Product\<close>, and so on.
\<close>

record RawRule =
  File :: string
  ID :: string
  Title :: string
  Status :: string
  Description :: string
  Author :: string
  References :: "string list"
  Logsource_Product :: string
  Logsource_Category :: string
  Logsource_Service :: string
  Logsource_Definition :: string
  Detection :: Detection
  Tags :: "string list"

text \<open>
  A \<open>Rule\<close> embeds a \<open>RawRule\<close> and holds a \<open>*Tree\<close>, \<open>None\<close> for \<open>nil\<close>. The type
  \<open>Tree\<close> and its method \<open>Match\<close> are not among the source files: trees are values of a
  type \<open>'t\<close>, and \<open>Match\<close> is a parameter, a function of the pointer and the event that
  returns a truth value.
\<close>

record 't Rule =
  tree :: "'t option"
  RawRule :: RawRule
  Path :: string

type_synonym 't RuleGroup = "'t Rule list"

text \<open>
  Modelled from the spec: the struct \<open>Result\<close> is not among the source files; the
  source sets its fields \<open>Tags\<close>, \<open>ID\<close> and \<open>Title\<close>.
\<close>

record Result =
  Tags :: "string list"
  ID :: string
  Title :: string

text \<open>
  \<open>func (r RuleGroup) Check(obj EventChecker, firstmatch bool) (Results, bool)\<close>: the
  loop with its local \<open>res\<close>, and the lines after it. The returned slice is \<open>None\<close>
  when the source returns \<open>nil\<close>.
\<close>

fun CheckLoop ::
  "('t option \<Rightarrow> 'ev \<Rightarrow> bool) \<Rightarrow> 't RuleGroup \<Rightarrow> 'ev \<Rightarrow> bool \<Rightarrow> Result list \<Rightarrow>
   Result list option \<times> bool" where
  "CheckLoop Match [] obj firstmatch res =
     (if length res > 0 then (Some res, True) else (None, False))"
| "CheckLoop Match (rule # r) obj firstmatch res =
     (if Match (tree rule) obj then
        (let res' = res @ [\<lparr>Tags = RawRule.Tags (RawRule rule),
                            ID = RawRule.ID (RawRule rule),
                            Title = RawRule.Title (RawRule rule)\<rparr>]
         in if length res' = 1 \<and> firstmatch then (Some res', True)
            else CheckLoop Match r obj firstmatch res')
      else CheckLoop Match r obj firstmatch res)"

definition Check ::
  "('t option \<Rightarrow> 'ev \<Rightarrow> bool) \<Rightarrow> 't RuleGroup \<Rightarrow> 'ev \<Rightarrow> bool \<Rightarrow>
   Result list option \<times> bool" where
  "Check Match r obj firstmatch = CheckLoop Match r obj firstmatch []"

text \<open>
  \<open>UnsupportedRawRule\<close> without its fields \<open>data\<close>, which the source never sets, and
  \<open>Rule\<close>, a pointer into the loop variable; \<open>Error\<close> is \<open>None\<close> for \<open>nil\<close>.
\<close>

record UnsupportedRawRule =
  Path :: string
  Reason :: string
  Error :: "error option"

record 't Ruleset =
  dirs :: "string list"
  Rules :: "string \<rightharpoonup> 't RuleGroup"
  Total :: int
  Unsupported :: "UnsupportedRawRule list"
  Broken :: "UnsupportedRawRule list"

text \<open>
  The type switch of \<open>NewRuleset\<close>: the first case lists the three error types of
  \<open>sigma.go\<close>, as values and as pointers; every other error, that of the package
  \<open>types\<close> too, takes the default case.
\<close>

fun unsupportedError :: "error \<Rightarrow> bool" where
  "unsupportedError (ErrUnsupportedToken msg) = True"
| "unsupportedError (ErrIncompleteDetection cond keys msg) = True"
| "unsupportedError ErrWip = True"
| "unsupportedError err = False"

text \<open>
  The loop \<open>decodedloop\<close> of \<open>NewRuleset\<close> over the decoded rules, with the Ruleset \<open>r\<close>
  and the local \<open>rules\<close> as its state. \<open>ParseDetection\<close> is not among the source files
  and is the parameter \<open>pd\<close>, which returns an error or a tree.
\<close>

fun decodedloop ::
  "(Detection \<Rightarrow> error + 't) \<Rightarrow> 't Rule list \<Rightarrow> 't Ruleset \<Rightarrow> 't Rule list \<Rightarrow>
   't Ruleset \<times> 't Rule list" where
  "decodedloop pd [] r rules = (r, rules)"
| "decodedloop pd (dec # decoded) r rules =
     (case pd (Detection (RawRule dec)) of
        Inl err \<Rightarrow>
          if unsupportedError err then
            decodedloop pd decoded
              (r\<lparr>Unsupported := Unsupported r @
                   [\<lparr>Path = Rule.Path dec, Reason = [], Error = Some err\<rparr>]\<rparr>) rules
          else
            decodedloop pd decoded
              (r\<lparr>Broken := Broken r @
                   [\<lparr>Path = Rule.Path dec, Reason = [], Error = Some err\<rparr>]\<rparr>) rules
      | Inr tr \<Rightarrow>
          decodedloop pd decoded r
            (rules @ [\<lparr>tree = Some tr, RawRule = RawRule dec, Path = Rule.Path dec\<rparr>]))"

text \<open>
  The loop \<open>groupLoop\<close> of \<open>NewRuleset\<close>.
\<close>

fun groupLoop :: "'t Rule list \<Rightarrow> 't Ruleset \<Rightarrow> 't Ruleset" where
  "groupLoop [] r = r"
| "groupLoop (rule # rules) r =
     (if Logsource_Product (RawRule rule) = [] then
        groupLoop rules
          (r\<lparr>Unsupported := Unsupported r @
               [\<lparr>Path = Rule.Path rule, Reason = ''Missing PRODUCT in LOGSOURCE'',
                 Error = None\<rparr>],
             Total := Total r - 1\<rparr>)
      else
        (case Rules r (Logsource_Product (RawRule rule)) of
           Some val \<Rightarrow>
             groupLoop rules
               (r\<lparr>Rules := (Rules r)(Logsource_Product (RawRule rule) \<mapsto> val @ [rule])\<rparr>)
         | None \<Rightarrow>
             groupLoop rules
               (r\<lparr>Rules := (Rules r)(Logsource_Product (RawRule rule) \<mapsto> [rule])\<rparr>)))"

text \<open>
  \<open>NewRuleset\<close> from the point where the rules are decoded: \<open>r\<close> is the Ruleset as the
  loop over the files left it and \<open>decoded\<close> the rules that loop decoded. What comes
  before (the validation of the configuration, the walk of the directories, reading
  and decoding the files) is outside the model.
\<close>

definition NewRuleset ::
  "(Detection \<Rightarrow> error + 't) \<Rightarrow> 't Ruleset \<Rightarrow> 't Rule list \<Rightarrow> 't Ruleset \<times> error option" where
  "NewRuleset pd r decoded =
     (case decodedloop pd decoded r [] of
        (r1, rules) \<Rightarrow>
          if length rules = 0 then
            (r1, Some (Errorf ''unable to parse any rules from %+v'' [AStrs (dirs r1)]))
          else (groupLoop rules (r1\<lparr>Total := int (length rules)\<rparr>), None))"

text \<open>
  The three places a batch of decoded rules is to fall into, each rule by the result of
  its own compilation and in the order of the batch: an entry in the list of unsupported
  rules for an error \<open>ErrUnsupportedToken\<close>, \<open>ErrIncompleteDetection\<close> or \<open>ErrWip\<close>, an
  entry in the list of broken rules for any other error, and the compiled rule
  otherwise. These definitions do not use the type switch of the model.
\<close>

definition unsupportedOf ::
  "(Detection \<Rightarrow> error + 't) \<Rightarrow> 't Rule list \<Rightarrow> UnsupportedRawRule list" where
  "unsupportedOf pd decoded =
     List.map_filter
       (\<lambda>dec. case pd (Detection (RawRule dec)) of
                 Inl (ErrUnsupportedToken msg) \<Rightarrow>
                   Some \<lparr>Path = Rule.Path dec, Reason = [],
                         Error = Some (ErrUnsupportedToken msg)\<rparr>
               | Inl (ErrIncompleteDetection cond keys msg) \<Rightarrow>
                   Some \<lparr>Path = Rule.Path dec, Reason = [],
                         Error = Some (ErrIncompleteDetection cond keys msg)\<rparr>
               | Inl ErrWip \<Rightarrow>
                   Some \<lparr>Path = Rule.Path dec, Reason = [], Error = Some ErrWip\<rparr>
               | _ \<Rightarrow> None) decoded"

definition brokenOf ::
  "(Detection \<Rightarrow> error + 't) \<Rightarrow> 't Rule list \<Rightarrow> UnsupportedRawRule list" where
  "brokenOf pd decoded =
     List.map_filter
       (\<lambda>dec. case pd (Detection (RawRule dec)) of
                 Inl (ErrUnsupportedToken msg) \<Rightarrow> None
               | Inl (ErrIncompleteDetection cond keys msg) \<Rightarrow> None
               | Inl ErrWip \<Rightarrow> None
               | Inl err \<Rightarrow> Some \<lparr>Path = Rule.Path dec, Reason = [], Error = Some err\<rparr>
               | Inr tr \<Rightarrow> None) decoded"

definition compiledOf :: "(Detection \<Rightarrow> error + 't) \<Rightarrow> 't Rule list \<Rightarrow> 't Rule list" where
  "compiledOf pd decoded =
     List.map_filter
       (\<lambda>dec. case pd (Detection (RawRule dec)) of
                 Inl err \<Rightarrow> None
               | Inr tr \<Rightarrow> Some \<lparr>tree = Some tr, RawRule = RawRule dec, Path = Rule.Path dec\<rparr>)
       decoded"

section \<open>Fixtures\<close>

text \<open>
  \<open>detection6\<close> of the test data in \<open>sigma.go\<close>, and its condition as a stream of items
  (the lexer is not among the source files; the kinds are the spec's).
\<close>

definition detection6 :: Detection where
  "detection6 =
     [''condition'' \<mapsto>
        CString ''(selection5 and ((selection1 and not selection2) or (not selection3 and selection4)))'',
      ''selection1'' \<mapsto> CMap [(''Field1'', CString ''aaa'')],
      ''selection2'' \<mapsto> CMap [(''Field2'', CString ''bbb'')],
      ''selection3'' \<mapsto> CMap [(''Field3'', CString ''ccc'')],
      ''selection4'' \<mapsto> CMap [(''Field4'', CString ''ddd'')],
      ''selection5'' \<mapsto> CMap [(''Field5'', CString ''eee'')]]"

definition condition6 :: tokens where
  "condition6 =
     [\<lparr>T = LParen, Val = ''(''\<rparr>,
      \<lparr>T = Identifier, Val = ''selection5''\<rparr>,
      \<lparr>T = KeywordAnd, Val = ''and''\<rparr>,
      \<lparr>T = LParen, Val = ''(''\<rparr>,
      \<lparr>T = LParen, Val = ''(''\<rparr>,
      \<lparr>T = Identifier, Val = ''selection1''\<rparr>,
      \<lparr>T = KeywordAnd, Val = ''and''\<rparr>,
      \<lparr>T = KeywordNot, Val = ''not''\<rparr>,
      \<lparr>T = Identifier, Val = ''selection2''\<rparr>,
      \<lparr>T = RParen, Val = '')''\<rparr>,
      \<lparr>T = KeywordOr, Val = ''or''\<rparr>,
      \<lparr>T = LParen, Val = ''(''\<rparr>,
      \<lparr>T = KeywordNot, Val = ''not''\<rparr>,
      \<lparr>T = Identifier, Val = ''selection3''\<rparr>,
      \<lparr>T = KeywordAnd, Val = ''and''\<rparr>,
      \<lparr>T = Identifier, Val = ''selection4''\<rparr>,
      \<lparr>T = RParen, Val = '')''\<rparr>,
      \<lparr>T = RParen, Val = '')''\<rparr>,
      \<lparr>T = RParen, Val = '')''\<rparr>]"

text \<open>
  A decoded rule document that sets its title, the product of its log source and its
  detection, and nothing else.
\<close>

definition rawRuleOf :: "string \<Rightarrow> string \<Rightarrow> Detection \<Rightarrow> RawRule" where
  "rawRuleOf title product d =
     \<lparr>File = [], ID = [], Title = title, Status = [], Description = [], Author = [],
      References = [], Logsource_Product = product, Logsource_Category = [],
      Logsource_Service = [], Logsource_Definition = [], Detection = d, Tags = []\<rparr>"

text \<open>
  Modelled from the spec: \<open>ParseDetection\<close> is not among the source files. The theorems
  below take the compiler as a parameter; this stand-in serves to run \<open>NewRuleset\<close> on a
  concrete batch, with one input for each kind of result. A detection without a
  condition string is malformed; a condition with the pipe of an aggregation holds an
  unsupported token; a condition with a wildcard is work in progress; a condition of one
  word that is no key of the detection is incomplete; any other condition compiles,
  here to the condition itself.
\<close>

definition sampleParseDetection :: "Detection \<Rightarrow> error + string" where
  "sampleParseDetection d =
     (case d ''condition'' of
        Some (CString s) \<Rightarrow>
          if CHR ''|'' \<in> set s then Inl (ErrUnsupportedToken ''|'')
          else if CHR ''*'' \<in> set s then Inl ErrWip
          else if CHR '' '' \<notin> set s \<and> d s = None then
            Inl (ErrIncompleteDetection s [] ''missing identifier'')
          else Inr s
      | _ \<Rightarrow> Inl ErrMissingCondition)"

section \<open>Properties of the validator\<close>

text \<open>
  The loop runs to the end of the channel exactly when no item is unsupported and every
  kind is allowed after the one before it, the first after the kind the parser held.
\<close>

lemma collectLoop_None_iff:
  "fst (collectLoop vts p items) = None \<longleftrightarrow>
     (\<forall>i \<in> set items. T i \<noteq> TokUnsupp) \<and> adjacentOk vts (previous p # map T items)"
proof (induction items arbitrary: p)
  case Nil
  show ?case by simp
next
  case (Cons item rest)
  show ?case
  proof (cases "T item = TokUnsupp \<or> \<not> vts (previous p) (T item)")
    case True
    then show ?thesis by auto
  next
    case False
    then show ?thesis by (simp add: Cons.IH)
  qed
qed

lemma collectLoop_None_parser:
  "collectLoop vts p items = (None, q) \<Longrightarrow>
     previous q = last (previous p # map T items) \<and>
     tokens q = tokens p @ filter (\<lambda>i. T i \<noteq> LitEof) items"
proof (induction items arbitrary: p)
  case Nil
  then show ?case by simp
next
  case (Cons item rest)
  from Cons.prems have ok: "T item \<noteq> TokUnsupp" "vts (previous p) (T item)"
    by (auto split: if_splits)
  let ?p' = "p\<lparr>tokens := (if T item \<noteq> LitEof then tokens p @ [item] else tokens p),
               previous := T item\<rparr>"
  from Cons.prems ok have "collectLoop vts ?p' rest = (None, q)" by simp
  from Cons.IH [OF this] show ?case by simp
qed

lemma collectLoop_append:
  "collectLoop vts p (xs @ ys) =
     (case collectLoop vts p xs of (None, q) \<Rightarrow> collectLoop vts q ys | (Some err, q) \<Rightarrow> (Some err, q))"
proof (induction xs arbitrary: p)
  case Nil
  show ?case by simp
next
  case (Cons x xs)
  show ?case by (simp add: Cons.IH)
qed

lemma adjacentOk_no_unsupp:
  assumes "\<And>a. \<not> vts a TokUnsupp"
  shows "adjacentOk vts (k # ks) \<Longrightarrow> TokUnsupp \<notin> set ks"
proof (induction ks arbitrary: k)
  case Nil
  show ?case by simp
next
  case (Cons a ks)
  then show ?case using assms by auto
qed

text \<open>
  What the validator accepts, for any table: the streams without an unsupported item
  in which every kind is allowed after the one before it and the last kind is \<open>Eof\<close>.
\<close>

lemma validator_accepts_exactly:
  "fst (collectAndValidateTokenSequences vts p items) = None \<longleftrightarrow>
     (\<forall>i \<in> set items. T i \<noteq> TokUnsupp) \<and>
     adjacentOk vts (previous p # map T items) \<and>
     last (previous p # map T items) = LitEof"
proof (cases "collectLoop vts p items")
  case (Pair r q)
  show ?thesis
  proof (cases r)
    case None
    with Pair collectLoop_None_parser [of vts p items q] collectLoop_None_iff [of vts p items]
    show ?thesis by (simp add: collectAndValidateTokenSequences_def)
  next
    case (Some err)
    with Pair collectLoop_None_iff [of vts p items]
    have "\<not> ((\<forall>i \<in> set items. T i \<noteq> TokUnsupp) \<and>
              adjacentOk vts (previous p # map T items))"
      by simp
    moreover from Some Pair
    have "fst (collectAndValidateTokenSequences vts p items) \<noteq> None"
      by (simp add: collectAndValidateTokenSequences_def)
    ultimately show ?thesis by blast
  qed
qed

text \<open>
  C4. The validator accepts a stream of the lexer if and only if every two neighbouring
  kinds are in the adjacency table and the last kind is \<open>Eof\<close>; when the neighbours are
  all allowed and the last kind seen is not \<open>Eof\<close>, it fails with the error
  \<open>last element should be EOF\<close>. The kinds are taken with the one the parser holds in
  \<open>previous\<close> in front, which is how the source checks the first item and what it
  compares with \<open>Eof\<close> on an empty stream. The table is the parameter \<open>vts\<close>, of which
  the theorem asks that it has no transition into \<open>Unsupported\<close>, the kind the source
  rejects before it looks into the table.
\<close>

theorem validator_accepts_iff:
  assumes "\<And>a. \<not> vts a TokUnsupp"
  shows "(fst (collectAndValidateTokenSequences vts p items) = None \<longleftrightarrow>
            adjacentOk vts (previous p # map T items) \<and>
            last (previous p # map T items) = LitEof) \<and>
         (adjacentOk vts (previous p # map T items) \<and>
            last (previous p # map T items) \<noteq> LitEof \<longrightarrow>
          fst (collectAndValidateTokenSequences vts p items) =
            Some (Errorf ''last element should be EOF, got %s''
                    [ATok (last (previous p # map T items))]))"
proof -
  obtain r q where rq: "collectLoop vts p items = (r, q)" by (cases "collectLoop vts p items")
  have nu: "adjacentOk vts (previous p # map T items) \<Longrightarrow> \<forall>i \<in> set items. T i \<noteq> TokUnsupp"
    using adjacentOk_no_unsupp [of vts "previous p" "map T items"] assms by (auto simp: image_iff)
  have loop: "r = None \<longleftrightarrow> adjacentOk vts (previous p # map T items)"
    using collectLoop_None_iff [of vts p items] rq nu by auto
  show ?thesis
  proof (cases r)
    case None
    then have "previous q = last (previous p # map T items)"
      using collectLoop_None_parser rq by blast
    with None loop rq show ?thesis
      by (simp add: collectAndValidateTokenSequences_def)
  next
    case (Some err)
    with loop rq show ?thesis
      by (simp add: collectAndValidateTokenSequences_def)
  qed
qed

theorem validator_accepts_iff_witness:
  "fst (collectAndValidateTokenSequences sampleTable \<lparr>tokens = [], previous = TokNil\<rparr>
          [\<lparr>T = Identifier, Val = ''aaa''\<rparr>, \<lparr>T = KeywordAnd, Val = ''and''\<rparr>,
           \<lparr>T = Identifier, Val = ''bbb''\<rparr>, \<lparr>T = LitEof, Val = []\<rparr>]) = None \<and>
   fst (collectAndValidateTokenSequences sampleTable \<lparr>tokens = [], previous = TokNil\<rparr>
          [\<lparr>T = Identifier, Val = ''aaa''\<rparr>, \<lparr>T = KeywordAnd, Val = ''and''\<rparr>,
           \<lparr>T = Identifier, Val = ''bbb''\<rparr>]) =
     Some (Errorf ''last element should be EOF, got %s'' [ATok Identifier])"
proof -
  have h: "\<And>a. \<not> sampleTable a TokUnsupp" by simp
  show ?thesis
    using validator_accepts_iff [of sampleTable "\<lparr>tokens = [], previous = TokNil\<rparr>"
            "[\<lparr>T = Identifier, Val = ''aaa''\<rparr>, \<lparr>T = KeywordAnd, Val = ''and''\<rparr>,
              \<lparr>T = Identifier, Val = ''bbb''\<rparr>, \<lparr>T = LitEof, Val = []\<rparr>]", OF h]
          validator_accepts_iff [of sampleTable "\<lparr>tokens = [], previous = TokNil\<rparr>"
            "[\<lparr>T = Identifier, Val = ''aaa''\<rparr>, \<lparr>T = KeywordAnd, Val = ''and''\<rparr>,
              \<lparr>T = Identifier, Val = ''bbb''\<rparr>]", OF h]
    by simp
qed

text \<open>
  C5. When the validator comes to an item of kind \<open>Unsupported\<close> (the items \<open>pre\<close>
  before it have passed the loop, which left the parser \<open>q\<close>), validation fails with
  \<open>types.ErrUnsupportedToken\<close> carrying the raw text of that item, whatever follows it, and
  the parser is left as it was on reaching the item: the collected stream holds the
  items of \<open>pre\<close> other than \<open>Eof\<close> and nothing more.
\<close>

theorem unsupported_token_fails:
  assumes "collectLoop vts p pre = (None, q)" and "T u = TokUnsupp"
  shows "collectAndValidateTokenSequences vts p (pre @ u # post) =
           (Some (Types_ErrUnsupportedToken (Val u)), q) \<and>
         tokens q = tokens p @ filter (\<lambda>i. T i \<noteq> LitEof) pre"
  using assms collectLoop_None_parser [OF assms(1)]
  by (simp add: collectAndValidateTokenSequences_def collectLoop_append)

theorem unsupported_token_fails_witness:
  "collectAndValidateTokenSequences sampleTable \<lparr>tokens = [], previous = TokNil\<rparr>
     [\<lparr>T = Identifier, Val = ''selection''\<rparr>, \<lparr>T = TokUnsupp, Val = ''|''\<rparr>,
      \<lparr>T = Identifier, Val = ''count''\<rparr>, \<lparr>T = LitEof, Val = []\<rparr>] =
     (Some (Types_ErrUnsupportedToken ''|''),
      \<lparr>tokens = [\<lparr>T = Identifier, Val = ''selection''\<rparr>], previous = Identifier\<rparr>)"
proof -
  have h1: "collectLoop sampleTable \<lparr>tokens = [], previous = TokNil\<rparr>
              [\<lparr>T = Identifier, Val = ''selection''\<rparr>] =
            (None, \<lparr>tokens = [\<lparr>T = Identifier, Val = ''selection''\<rparr>], previous = Identifier\<rparr>)"
    by simp
  have h2: "T \<lparr>T = TokUnsupp, Val = ''|''\<rparr> = TokUnsupp" by simp
  show ?thesis
    using unsupported_token_fails [OF h1 h2,
            of "[\<lparr>T = Identifier, Val = ''count''\<rparr>, \<lparr>T = LitEof, Val = []\<rparr>]"]
    by simp
qed

text \<open>
  The stream of the condition \<open>selection1 and not selection3\<close> is accepted, and what
  the validator has collected for the parser is the stream without its \<open>Eof\<close>: the
  spec's invariant does not hold of it.
\<close>

theorem eof_not_collected_counterexample:
  "fst (collectAndValidateTokenSequences sampleTable \<lparr>tokens = [], previous = TokNil\<rparr>
          [\<lparr>T = Identifier, Val = ''selection1''\<rparr>, \<lparr>T = KeywordAnd, Val = ''and''\<rparr>,
           \<lparr>T = KeywordNot, Val = ''not''\<rparr>, \<lparr>T = Identifier, Val = ''selection3''\<rparr>,
           \<lparr>T = LitEof, Val = []\<rparr>]) = None \<and>
   tokens (snd (collectAndValidateTokenSequences sampleTable \<lparr>tokens = [], previous = TokNil\<rparr>
          [\<lparr>T = Identifier, Val = ''selection1''\<rparr>, \<lparr>T = KeywordAnd, Val = ''and''\<rparr>,
           \<lparr>T = KeywordNot, Val = ''not''\<rparr>, \<lparr>T = Identifier, Val = ''selection3''\<rparr>,
           \<lparr>T = LitEof, Val = []\<rparr>])) =
     [\<lparr>T = Identifier, Val = ''selection1''\<rparr>, \<lparr>T = KeywordAnd, Val = ''and''\<rparr>,
      \<lparr>T = KeywordNot, Val = ''not''\<rparr>, \<lparr>T = Identifier, Val = ''selection3''\<rparr>] \<and>
   \<not> tokenStreamInvariant
       (tokens (snd (collectAndValidateTokenSequences sampleTable
          \<lparr>tokens = [], previous = TokNil\<rparr>
          [\<lparr>T = Identifier, Val = ''selection1''\<rparr>, \<lparr>T = KeywordAnd, Val = ''and''\<rparr>,
           \<lparr>T = KeywordNot, Val = ''not''\<rparr>, \<lparr>T = Identifier, Val = ''selection3''\<rparr>,
           \<lparr>T = LitEof, Val = []\<rparr>])))"
  by (simp add: collectAndValidateTokenSequences_def tokenStreamInvariant_def)

lemma validator_None:
  "fst (collectAndValidateTokenSequences vts p items) = None \<Longrightarrow>
   \<exists>q. collectLoop vts p items = (None, q) \<and> previous q = LitEof \<and>
       snd (collectAndValidateTokenSequences vts p items) = q"
  by (cases "collectLoop vts p items")
     (auto simp: collectAndValidateTokenSequences_def split: option.splits if_splits)

text \<open>
  C8, as the code has it. The stream the validator hands to the parser (the tokens of a
  parser that started with none, after a validation that succeeded) is the lexer's
  stream with the \<open>Eof\<close> items dropped: it contains no \<open>Eof\<close>, so the spec's
  invariant never holds of it, while the lexer's stream it was collected from ends in
  \<open>Eof\<close>; and it is not empty when the parser did not start from \<open>Eof\<close> and the
  table does not allow \<open>Eof\<close> as the first kind.
\<close>

theorem handed_stream_without_eof:
  assumes "fst (collectAndValidateTokenSequences vts p items) = None" and "tokens p = []"
  shows "tokens (snd (collectAndValidateTokenSequences vts p items)) =
           filter (\<lambda>item. T item \<noteq> LitEof) items \<and>
         LitEof \<notin> T ` set (tokens (snd (collectAndValidateTokenSequences vts p items))) \<and>
         \<not> tokenStreamInvariant (tokens (snd (collectAndValidateTokenSequences vts p items))) \<and>
         last (previous p # map T items) = LitEof \<and>
         (previous p \<noteq> LitEof \<and> \<not> vts (previous p) LitEof \<longrightarrow>
            tokens (snd (collectAndValidateTokenSequences vts p items)) \<noteq> [])"
proof -
  let ?ts = "tokens (snd (collectAndValidateTokenSequences vts p items))"
  from validator_None [OF assms(1)] obtain q where
    q: "collectLoop vts p items = (None, q)" "previous q = LitEof"
       "snd (collectAndValidateTokenSequences vts p items) = q"
    by blast
  from collectLoop_None_parser [OF q(1)] assms(2) q(2,3)
  have ts: "?ts = filter (\<lambda>item. T item \<noteq> LitEof) items"
    and l: "last (previous p # map T items) = LitEof"
    by simp_all
  have all: "\<forall>item \<in> set ?ts. T item \<noteq> LitEof" unfolding ts by simp
  then have noeof: "LitEof \<notin> T ` set ?ts" by force
  from all have "filter (\<lambda>item. T item = LitEof) ?ts = []"
    by (simp add: filter_empty_conv)
  then have ninv: "\<not> tokenStreamInvariant ?ts" by (simp add: tokenStreamInvariant_def)
  have ne: "?ts \<noteq> []" if "previous p \<noteq> LitEof" "\<not> vts (previous p) LitEof"
  proof (cases items)
    case Nil
    with l that show ?thesis by simp
  next
    case (Cons item rest)
    from q(1) Cons have "T item \<noteq> TokUnsupp" "vts (previous p) (T item)"
      by (auto split: if_splits)
    with that have "T item \<noteq> LitEof" by auto
    then show ?thesis using ts Cons by simp
  qed
  show ?thesis using ts noeof ninv l ne by blast
qed

theorem handed_stream_without_eof_witness:
  "tokens (snd (collectAndValidateTokenSequences sampleTable \<lparr>tokens = [], previous = TokNil\<rparr>
          [\<lparr>T = Identifier, Val = ''selection1''\<rparr>, \<lparr>T = KeywordOr, Val = ''or''\<rparr>,
           \<lparr>T = Identifier, Val = ''selection2''\<rparr>, \<lparr>T = LitEof, Val = []\<rparr>])) =
     [\<lparr>T = Identifier, Val = ''selection1''\<rparr>, \<lparr>T = KeywordOr, Val = ''or''\<rparr>,
      \<lparr>T = Identifier, Val = ''selection2''\<rparr>]"
proof -
  let ?p = "\<lparr>tokens = [], previous = TokNil\<rparr>"
  let ?items = "[\<lparr>T = Identifier, Val = ''selection1''\<rparr>, \<lparr>T = KeywordOr, Val = ''or''\<rparr>,
           \<lparr>T = Identifier, Val = ''selection2''\<rparr>, \<lparr>T = LitEof, Val = []\<rparr>]"
  have h1: "fst (collectAndValidateTokenSequences sampleTable ?p ?items) = None"
    by (simp add: collectAndValidateTokenSequences_def)
  have h2: "tokens ?p = []" by simp
  have h3: "previous ?p \<noteq> LitEof \<and> \<not> sampleTable (previous ?p) LitEof" by simp
  show ?thesis
    using handed_stream_without_eof [OF h1 h2] h3 by simp
qed

section \<open>Properties of Detection\<close>

lemma newSearchExpr_det: "det (snd (newSearchExpr e m)) = det m"
  by (simp add: newSearchExpr_def)

lemma Guess_det: "det (snd (Guess s m)) = det m"
  by (simp add: Guess_def)

lemma Get_det: "det (snd (Get key m)) = det m"
  by (simp add: Get_def Guess_def newSearchExpr_def split: option.splits)

lemma Get_Some:
  "det m key = Some v \<Longrightarrow>
   Get key m =
     (Some (length (exprs m)),
      m\<lparr>exprs := exprs m @
           [\<lparr>Name = key,
             Type = (if prefix ''keyword'' key then ExprKeywords else ExprSelection),
             Content = v\<rparr>]\<rparr>)"
  by (simp add: Get_def Guess_def newSearchExpr_def)

lemma Get_None: "det m key = None \<Longrightarrow> Get key m = (None, m)"
  by (simp add: Get_def)

lemma Fields_det: "det (snd (Fields ks m)) = det m"
proof (induction ks arbitrary: m)
  case Nil
  show ?case by simp
next
  case (Cons k ks)
  show ?case
    by (simp add: Cons.IH Guess_def newSearchExpr_def split_beta split: option.splits)
qed

lemma Fields_Type:
  "e \<in> set (fst (Fields ks m)) \<Longrightarrow>
   Type e = (if prefix ''keyword'' (Name e) then ExprKeywords else ExprSelection)"
proof (induction ks arbitrary: m)
  case Nil
  then show ?case by simp
next
  case (Cons k ks)
  show ?case
  proof (cases "det m k")
    case None
    with Cons show ?thesis by simp
  next
    case (Some v)
    show ?thesis
    proof (cases "k = ''condition''")
      case True
      with Some Cons show ?thesis by simp
    next
      case False
      let ?m2 = "m\<lparr>exprs := exprs m @
           [\<lparr>Name = k,
             Type = (if prefix ''keyword'' k then ExprKeywords else ExprSelection),
             Content = v\<rparr>]\<rparr>"
      from False Some Cons.prems
      have "e = \<lparr>Name = k,
             Type = (if prefix ''keyword'' k then ExprKeywords else ExprSelection),
             Content = v\<rparr> \<or> e \<in> set (fst (Fields ks ?m2))"
        by (auto simp: Guess_def newSearchExpr_def split: prod.splits if_splits)
      then show ?thesis using Cons.IH by auto
    qed
  qed
qed

lemma simpleSearchLoop_det:
  assumes "\<And>e lc m0. det (snd (nrm e lc m0)) = det m0"
  shows "det (snd (simpleSearchLoop nrm t c l m)) = det m"
proof (induction t arbitrary: l m)
  case Nil
  show ?case by (cases l) simp
next
  case (Cons item rest)
  obtain negated rules modifiers where l: "l = (negated, rules, modifiers)"
    by (cases l)
  show ?case
  proof (cases "T item = Identifier")
    case False
    then show ?thesis unfolding l by (cases "T item") (simp_all add: Cons.IH)
  next
    case True
    obtain e m1 where g: "Get (Val item) m = (e, m1)" by (cases "Get (Val item) m")
    obtain res m2 where n: "nrm e (LowerCase c) m1 = (res, m2)"
      by (cases "nrm e (LowerCase c) m1")
    have d1: "det m1 = det m" using Get_det [of "Val item" m] g by simp
    have d2: "det m2 = det m1" using assms [of e "LowerCase c" m1] n by simp
    show ?thesis unfolding l using True g n d1 d2
      by (cases res) (simp_all add: Cons.IH)
  qed
qed

lemma simpleSearchLoop_error:
  "fst (simpleSearchLoop nrm t c l m) = Inl err \<Longrightarrow> \<exists>e lc m0. fst (nrm e lc m0) = Inl err"
proof (induction t arbitrary: l m)
  case Nil
  then show ?case by (cases l) simp
next
  case (Cons item rest)
  obtain negated rules modifiers where l: "l = (negated, rules, modifiers)"
    by (cases l)
  show ?case
  proof (cases "T item = Identifier")
    case False
    with Cons.prems show ?thesis unfolding l
      by (cases "T item") (auto dest: Cons.IH)
  next
    case True
    obtain e m1 where g: "Get (Val item) m = (e, m1)" by (cases "Get (Val item) m")
    obtain res m2 where n: "nrm e (LowerCase c) m1 = (res, m2)"
      by (cases "nrm e (LowerCase c) m1")
    show ?thesis
    proof (cases res)
      case (Inl err')
      with Cons.prems True g n have "err' = err" unfolding l by simp
      with Inl n have "fst (nrm e (LowerCase c) m1) = Inl err" by simp
      then show ?thesis by blast
    next
      case (Inr r)
      with Cons.prems True g n show ?thesis unfolding l by (auto dest: Cons.IH)
    qed
  qed
qed

lemma parseSimpleSearch_result:
  "fst (parseSimpleSearch nrm t c m) =
     Inl (case fst (simpleSearchLoop nrm t c (False, [], [TokNil]) m) of
            Inl err \<Rightarrow> err | Inr l \<Rightarrow> Errorf ''WIP'' [])"
  by (simp add: parseSimpleSearch_def split: prod.splits sum.splits)

lemma parseSimpleSearch_det:
  assumes "\<And>e lc m0. det (snd (nrm e lc m0)) = det m0"
  shows "det (snd (parseSimpleSearch nrm t c m)) = det m"
  using simpleSearchLoop_det [of nrm t c "(False, [], [TokNil])" m, OF assms]
  by (auto simp: parseSimpleSearch_def split: prod.splits sum.splits)

lemma parseSearch_never_Inr: "fst (parseSearch gof nrm t c m) \<noteq> Returns (Inr b)"
  using parseSimpleSearch_result [of nrm t c m]
  by (auto simp: parseSearch_def split: sum.splits prod.splits option.splits content.splits)

text \<open>
  C7. For every entry of the Detection, whatever its content, \<open>Get\<close> returns a
  \<open>SearchExpr\<close> with the entry's name and content whose type is decided by the name
  alone: \<open>Keywords\<close> when the name starts with \<open>keyword\<close>, \<open>Selection\<close> otherwise. The
  same holds of every expression \<open>Fields\<close> sends.
\<close>

theorem classification_by_name:
  "(det m key = Some v \<longrightarrow>
     (\<exists>s. fst (Get key m) = Some s \<and>
          exprs (snd (Get key m)) ! s =
            \<lparr>Name = key,
             Type = (if prefix ''keyword'' key then ExprKeywords else ExprSelection),
             Content = v\<rparr>)) \<and>
   (\<forall>e \<in> set (fst (Fields ks m)).
      Type e = (if prefix ''keyword'' (Name e) then ExprKeywords else ExprSelection))"
  by (simp add: Get_Some Fields_Type)

theorem classification_by_name_witness:
  "(\<exists>s. fst (Get ''keywords''
               \<lparr>det = [''keywords'' \<mapsto> CMap [(''Image'', CString ''a'')],
                       ''selection'' \<mapsto> CList [CString ''b'']], exprs = []\<rparr>) = Some s \<and>
        exprs (snd (Get ''keywords''
               \<lparr>det = [''keywords'' \<mapsto> CMap [(''Image'', CString ''a'')],
                       ''selection'' \<mapsto> CList [CString ''b'']], exprs = []\<rparr>)) ! s =
          \<lparr>Name = ''keywords'', Type = ExprKeywords,
           Content = CMap [(''Image'', CString ''a'')]\<rparr>) \<and>
   map Type (fst (Fields [''selection'', ''keywords'']
               \<lparr>det = [''keywords'' \<mapsto> CMap [(''Image'', CString ''a'')],
                       ''selection'' \<mapsto> CList [CString ''b'']], exprs = []\<rparr>)) =
     [ExprSelection, ExprKeywords]"
proof -
  let ?m = "\<lparr>det = [''keywords'' \<mapsto> CMap [(''Image'', CString ''a'')],
                   ''selection'' \<mapsto> CList [CString ''b'']], exprs = []\<rparr>"
  have h: "det ?m ''keywords'' = Some (CMap [(''Image'', CString ''a'')])" by simp
  have f: "map Name (fst (Fields [''selection'', ''keywords''] ?m)) = [''selection'', ''keywords'']"
    by (simp add: Guess_def newSearchExpr_def)
  show ?thesis
    using classification_by_name [of ?m "''keywords''" "CMap [(''Image'', CString ''a'')]"
            "[''selection'', ''keywords'']"] h f
    by (simp add: Guess_def newSearchExpr_def)
qed

text \<open>
  C9. No compilation operation changes the Detection: after \<open>Get\<close>, \<open>Fields\<close>,
  \<open>parseSimpleSearch\<close> and \<open>parseSearch\<close> the map is the one from before the call, so
  every key has the content it had. The two parsers call the leaf builder, which is
  not among the source files: the theorem asks of it that it leaves the map alone.
\<close>

theorem detection_unchanged:
  assumes "\<And>e lc m0. det (snd (nrm e lc m0)) = det m0"
  shows "det (snd (Get key m)) = det m \<and>
         det (snd (Fields ks m)) = det m \<and>
         det (snd (parseSimpleSearch nrm t c m)) = det m \<and>
         det (snd (parseSearch gof nrm t c m)) = det m"
proof -
  have "det (snd (parseSearch gof nrm t c m)) = det m"
    using parseSimpleSearch_det [of nrm t c m, OF assms]
    by (auto simp: parseSearch_def split: sum.splits prod.splits option.splits content.splits)
  then show ?thesis
    using parseSimpleSearch_det [of nrm t c m, OF assms] by (simp add: Get_det Fields_det)
qed

theorem detection_unchanged_witness:
  "det (snd (Get ''selection1'' \<lparr>det = detection6, exprs = []\<rparr>)) = detection6 \<and>
   det (snd (Fields [''selection1'', ''condition'', ''selection2''] \<lparr>det = detection6, exprs = []\<rparr>)) = detection6 \<and>
   det (snd (parseSimpleSearch sampleLeafBuilder
          [\<lparr>T = Identifier, Val = ''selection1''\<rparr>, \<lparr>T = KeywordAnd, Val = ''and''\<rparr>,
           \<lparr>T = KeywordNot, Val = ''not''\<rparr>, \<lparr>T = Identifier, Val = ''selection3''\<rparr>]
          \<lparr>LowerCase = False\<rparr> \<lparr>det = detection6, exprs = []\<rparr>)) = detection6 \<and>
   det (snd (parseSearch newGroupOffsetInTokens sampleLeafBuilder
          [\<lparr>T = Identifier, Val = ''selection1''\<rparr>, \<lparr>T = KeywordAnd, Val = ''and''\<rparr>,
           \<lparr>T = KeywordNot, Val = ''not''\<rparr>, \<lparr>T = Identifier, Val = ''selection3''\<rparr>]
          \<lparr>LowerCase = False\<rparr> \<lparr>det = detection6, exprs = []\<rparr>)) = detection6"
proof -
  have h: "\<And>e lc m0. det (snd (sampleLeafBuilder e lc m0)) = det m0"
    by (simp add: sampleLeafBuilder_def split: option.splits)
  have d: "det \<lparr>det = detection6, exprs = []\<rparr> = detection6" by simp
  show ?thesis
    using detection_unchanged [of sampleLeafBuilder "''selection1''"
            "\<lparr>det = detection6, exprs = []\<rparr>" "[''selection1'', ''condition'', ''selection2'']"
            "[\<lparr>T = Identifier, Val = ''selection1''\<rparr>, \<lparr>T = KeywordAnd, Val = ''and''\<rparr>,
              \<lparr>T = KeywordNot, Val = ''not''\<rparr>, \<lparr>T = Identifier, Val = ''selection3''\<rparr>]"
            "\<lparr>LowerCase = False\<rparr>" newGroupOffsetInTokens, OF h]
    unfolding d by blast
qed

section \<open>Properties of the condition parser\<close>

text \<open>
  What \<open>parseSearch\<close> does with groups. For every token stream in which the group
  finder reports a group, it returns no branch and leaves the memory as it was, and
  when the stream has no quantifier and no wildcard and the Detection's condition is a
  string, what it returns is the error
  \<open>TODO - implement parsing sub-groups recursively\<close>.
\<close>

lemma groups_not_compiled:
  assumes "gof t = Inr (groups, True)"
  shows "snd (parseSearch gof nrm t c m) = m \<and>
         (\<forall>b. fst (parseSearch gof nrm t c m) \<noteq> Returns (Inr b)) \<and>
         (\<not> contains t IdentifierAll \<and> \<not> contains t IdentifierWithWildcard \<and>
          \<not> contains t StOne \<and> \<not> contains t StAll \<and>
          det m ''condition'' = Some (CString s) \<longrightarrow>
          fst (parseSearch gof nrm t c m) =
            Returns (Inl (Errorf ''TODO - implement parsing sub-groups recursively'' [])))"
proof -
  have "snd (parseSearch gof nrm t c m) = m"
    using assms by (simp add: parseSearch_def split: option.splits content.splits)
  moreover have "\<forall>b. fst (parseSearch gof nrm t c m) \<noteq> Returns (Inr b)"
    by (simp add: parseSearch_never_Inr)
  moreover have "\<not> contains t IdentifierAll \<and> \<not> contains t IdentifierWithWildcard \<and>
          \<not> contains t StOne \<and> \<not> contains t StAll \<and>
          det m ''condition'' = Some (CString s) \<longrightarrow>
          fst (parseSearch gof nrm t c m) =
            Returns (Inl (Errorf ''TODO - implement parsing sub-groups recursively'' []))"
    using assms by (simp add: parseSearch_def)
  ultimately show ?thesis by blast
qed

text \<open>
  C1. The claim is that a validated stream with a parenthesized group is compiled, each
  group replaced by an operand that holds its recursively compiled sub-tree, and that
  the condition with groups nested three deep compiles. The code does not do this. The
  condition of \<open>detection6\<close> of the test data, nested three deep, passes the validator,
  and \<open>parseSearch\<close> answers its stream with the error
  \<open>TODO - implement parsing sub-groups recursively\<close> where the claim has a tree: the
  recursion that the comment at the head of \<open>parseSearch\<close> plans is not written.
\<close>

theorem detection6_not_compiled:
  "collectAndValidateTokenSequences sampleTable \<lparr>tokens = [], previous = TokNil\<rparr>
     (condition6 @ [\<lparr>T = LitEof, Val = []\<rparr>]) =
     (None, \<lparr>tokens = condition6, previous = LitEof\<rparr>) \<and>
   fst (parseSearch newGroupOffsetInTokens sampleLeafBuilder condition6
          \<lparr>LowerCase = False\<rparr> \<lparr>det = detection6, exprs = []\<rparr>) =
     Returns (Inl (Errorf ''TODO - implement parsing sub-groups recursively'' []))"
  by (simp add: collectAndValidateTokenSequences_def parseSearch_def contains_def
        condition6_def newGroupOffsetInTokens_def detection6_def)

text \<open>
  What \<open>parseSearch\<close> does with quantifiers. For every token stream that contains
  \<open>them\<close>, a wildcard identifier or a quantifier (\<open>1 of\<close>, \<open>all of\<close>), it returns the
  error \<open>TODO - THEM identifier\<close>, \<open>TODO - wildcard identifier\<close> or
  \<open>TODO - X of statement\<close>, the first that applies in this order, and leaves the memory
  as it was.
\<close>

lemma quantifiers_not_compiled:
  assumes "contains t IdentifierAll \<or> contains t IdentifierWithWildcard \<or>
           contains t StOne \<or> contains t StAll"
  shows "parseSearch gof nrm t c m =
           (Returns (Inl (Errorf
              (if contains t IdentifierAll then ''TODO - THEM identifier''
               else if contains t IdentifierWithWildcard then ''TODO - wildcard identifier''
               else ''TODO - X of statement'') [])), m)"
  using assms by (auto simp: parseSearch_def)

text \<open>
  C2. The claim is that a validated stream with a quantifier form or a wildcard
  identifier is resolved into a Quantifier node over the matching identifiers of the
  Detection, for \<open>them\<close> every identifier but the condition. The code does not do
  this. The stream of \<open>all of them\<close> passes the validator, and \<open>parseSearch\<close> answers
  it with the error \<open>TODO - THEM identifier\<close> where the claim has a node; \<open>Fields\<close>,
  which lists the identifiers \<open>them\<close> stands for, is not called.
\<close>

theorem all_of_them_not_compiled:
  "collectAndValidateTokenSequences sampleTable \<lparr>tokens = [], previous = TokNil\<rparr>
     [\<lparr>T = StAll, Val = ''all''\<rparr>, \<lparr>T = KeywordOf, Val = ''of''\<rparr>,
      \<lparr>T = IdentifierAll, Val = ''them''\<rparr>, \<lparr>T = LitEof, Val = []\<rparr>] =
     (None, \<lparr>tokens = [\<lparr>T = StAll, Val = ''all''\<rparr>, \<lparr>T = KeywordOf, Val = ''of''\<rparr>,
                       \<lparr>T = IdentifierAll, Val = ''them''\<rparr>], previous = LitEof\<rparr>) \<and>
   fst (parseSearch newGroupOffsetInTokens sampleLeafBuilder
          [\<lparr>T = StAll, Val = ''all''\<rparr>, \<lparr>T = KeywordOf, Val = ''of''\<rparr>,
           \<lparr>T = IdentifierAll, Val = ''them''\<rparr>]
          \<lparr>LowerCase = False\<rparr>
          \<lparr>det = [''condition'' \<mapsto> CString ''all of them'',
                   ''selection1'' \<mapsto> CMap [(''Field1'', CString ''aaa'')],
                   ''selection2'' \<mapsto> CMap [(''Field2'', CString ''bbb'')]],
            exprs = []\<rparr>) =
     Returns (Inl (Errorf ''TODO - THEM identifier'' []))"
  by (simp add: collectAndValidateTokenSequences_def parseSearch_def contains_def)

text \<open>
  What \<open>parseSearch\<close> does with a flat stream, one without quantifier, wildcard or
  group: it returns the error of the leaf builder if the loop of \<open>parseSimpleSearch\<close>
  stopped on one, and the error \<open>WIP\<close> if the loop ran to the end.
\<close>

lemma flat_stream_not_compiled:
  assumes "\<not> contains t IdentifierAll" and "\<not> contains t IdentifierWithWildcard"
    and "\<not> contains t StOne" and "\<not> contains t StAll"
    and "gof t = Inr (groups, False)"
  shows "fst (parseSearch gof nrm t c m) =
           Returns (Inl (case fst (simpleSearchLoop nrm t c (False, [], [TokNil]) m) of
                           Inl err \<Rightarrow> err
                         | Inr l \<Rightarrow> Errorf ''WIP'' []))"
proof -
  have "fst (parseSearch gof nrm t c m) = Returns (fst (parseSimpleSearch nrm t c m))"
    unfolding parseSearch_def using assms by (simp add: split_beta)
  then show ?thesis by (simp only: parseSimpleSearch_result)
qed

text \<open>
  What the loop of \<open>parseSimpleSearch\<close> has collected at the end of \<open>A or B and C\<close>
  when the three identifiers are in the Detection (with the stand-in leaf builder): the
  operands in order, and for each the operator in front of it, \<open>TokNil\<close> for the
  first. \<open>parseSimpleSearch\<close> drops both lists and returns the error \<open>WIP\<close>.
\<close>

lemma simpleSearchLoop_or_and:
  assumes "det m A = Some a" and "det m B = Some b" and "det m C = Some c"
  shows "simpleSearchLoop sampleLeafBuilder
           [\<lparr>T = Identifier, Val = A\<rparr>, \<lparr>T = KeywordOr, Val = vo\<rparr>,
            \<lparr>T = Identifier, Val = B\<rparr>, \<lparr>T = KeywordAnd, Val = va\<rparr>,
            \<lparr>T = Identifier, Val = C\<rparr>] cfg (False, [], [TokNil]) m =
         (Inr (False,
               [Matcher \<lparr>Name = A,
                         Type = (if prefix ''keyword'' A then ExprKeywords else ExprSelection),
                         Content = a\<rparr>,
                Matcher \<lparr>Name = B,
                         Type = (if prefix ''keyword'' B then ExprKeywords else ExprSelection),
                         Content = b\<rparr>,
                Matcher \<lparr>Name = C,
                         Type = (if prefix ''keyword'' C then ExprKeywords else ExprSelection),
                         Content = c\<rparr>],
               [TokNil, KeywordOr, KeywordAnd]),
          m\<lparr>exprs := exprs m @
               [\<lparr>Name = A,
                 Type = (if prefix ''keyword'' A then ExprKeywords else ExprSelection),
                 Content = a\<rparr>,
                \<lparr>Name = B,
                 Type = (if prefix ''keyword'' B then ExprKeywords else ExprSelection),
                 Content = b\<rparr>,
                \<lparr>Name = C,
                 Type = (if prefix ''keyword'' C then ExprKeywords else ExprSelection),
                 Content = c\<rparr>]\<rparr>)"
  using assms by (simp add: Get_Some sampleLeafBuilder_def nth_append)

text \<open>
  C3. The claim is that compiling \<open>A or B and C\<close> succeeds, with a tree that matches
  as \<open>Or(A, And(B, C))\<close> does. The code does not do this. The stream of
  \<open>selection1 or selection2 and selection3\<close>, three identifiers of \<open>detection6\<close>,
  passes the validator, and \<open>parseSearch\<close> answers it with the error \<open>WIP\<close> where the
  claim has a tree: the loop marks the operands for a second pass that is not written.
\<close>

theorem or_and_not_compiled:
  "collectAndValidateTokenSequences sampleTable \<lparr>tokens = [], previous = TokNil\<rparr>
     [\<lparr>T = Identifier, Val = ''selection1''\<rparr>, \<lparr>T = KeywordOr, Val = ''or''\<rparr>,
      \<lparr>T = Identifier, Val = ''selection2''\<rparr>, \<lparr>T = KeywordAnd, Val = ''and''\<rparr>,
      \<lparr>T = Identifier, Val = ''selection3''\<rparr>, \<lparr>T = LitEof, Val = []\<rparr>] =
     (None, \<lparr>tokens = [\<lparr>T = Identifier, Val = ''selection1''\<rparr>, \<lparr>T = KeywordOr, Val = ''or''\<rparr>,
                       \<lparr>T = Identifier, Val = ''selection2''\<rparr>,
                       \<lparr>T = KeywordAnd, Val = ''and''\<rparr>,
                       \<lparr>T = Identifier, Val = ''selection3''\<rparr>], previous = LitEof\<rparr>) \<and>
   fst (parseSearch newGroupOffsetInTokens sampleLeafBuilder
          [\<lparr>T = Identifier, Val = ''selection1''\<rparr>, \<lparr>T = KeywordOr, Val = ''or''\<rparr>,
           \<lparr>T = Identifier, Val = ''selection2''\<rparr>, \<lparr>T = KeywordAnd, Val = ''and''\<rparr>,
           \<lparr>T = Identifier, Val = ''selection3''\<rparr>]
          \<lparr>LowerCase = False\<rparr> \<lparr>det = detection6, exprs = []\<rparr>) =
     Returns (Inl (Errorf ''WIP'' []))"
  by (simp add: collectAndValidateTokenSequences_def parseSearch_def contains_def
        newGroupOffsetInTokens_def parseSimpleSearch_def Get_def Guess_def newSearchExpr_def
        sampleLeafBuilder_def detection6_def)

text \<open>
  Since neither parser returns a branch, \<open>run\<close> never returns \<open>nil\<close>: it returns an
  error or panics, for every lexer, table, group finder, leaf builder and Detection.
\<close>

lemma run_never_succeeds: "fst (run vts gof nrm lx p m) \<noteq> Returns None"
proof (cases lx)
  case None
  then show ?thesis by (simp add: run_def)
next
  case (Some items)
  obtain r p' where v: "collectAndValidateTokenSequences vts p items = (r, p')"
    by (cases "collectAndValidateTokenSequences vts p items")
  show ?thesis
  proof (cases r)
    case None
    obtain res m' where ps:
      "parseSearch gof nrm (tokens p') \<lparr>LowerCase = False\<rparr> m = (res, m')"
      by (cases "parseSearch gof nrm (tokens p') \<lparr>LowerCase = False\<rparr> m")
    have "res \<noteq> Returns (Inr b)" for b
      using parseSearch_never_Inr [of gof nrm "tokens p'" "\<lparr>LowerCase = False\<rparr>" m b] ps
      by simp
    then show ?thesis using Some v None ps
      by (auto simp: run_def split: outcome.splits sum.splits)
  next
    case (Some err)
    with \<open>lx = Some items\<close> v show ?thesis by (simp add: run_def)
  qed
qed

section \<open>Properties of rule groups and rule sets\<close>

lemma decodedloop_buckets:
  "decodedloop pd decoded r rules =
     (r\<lparr>Unsupported := Unsupported r @ unsupportedOf pd decoded,
        Broken := Broken r @ brokenOf pd decoded\<rparr>,
      rules @ compiledOf pd decoded)"
proof (induction decoded arbitrary: r rules)
  case Nil
  show ?case by (simp add: unsupportedOf_def brokenOf_def compiledOf_def)
next
  case (Cons dec decoded)
  show ?case
  proof (cases "pd (Detection (RawRule dec))")
    case (Inl err)
    then show ?thesis
      by (cases err) (simp_all add: Cons.IH unsupportedOf_def brokenOf_def compiledOf_def)
  next
    case (Inr tr)
    then show ?thesis
      by (simp add: Cons.IH unsupportedOf_def brokenOf_def compiledOf_def)
  qed
qed

lemma buckets_length:
  "length (unsupportedOf pd decoded) + length (brokenOf pd decoded) +
     length (compiledOf pd decoded) = length decoded"
proof (induction decoded)
  case Nil
  show ?case by (simp add: unsupportedOf_def brokenOf_def compiledOf_def)
next
  case (Cons dec decoded)
  show ?case
  proof (cases "pd (Detection (RawRule dec))")
    case (Inl err)
    with Cons show ?thesis
      by (cases err) (simp_all add: unsupportedOf_def brokenOf_def compiledOf_def)
  next
    case (Inr tr)
    with Cons show ?thesis
      by (simp add: unsupportedOf_def brokenOf_def compiledOf_def)
  qed
qed

lemma map_filter_member:
  "x \<in> set xs \<Longrightarrow> f x = Some y \<Longrightarrow> y \<in> set (List.map_filter f xs)"
  by (induction xs) (auto split: option.splits)

lemma unsupportedOf_member:
  assumes "dec \<in> set decoded" and "pd (Detection (RawRule dec)) = Inl err"
    and "(\<exists>msg. err = ErrUnsupportedToken msg) \<or>
         (\<exists>cond keys msg. err = ErrIncompleteDetection cond keys msg) \<or> err = ErrWip"
  shows "\<lparr>Path = Rule.Path dec, Reason = [], Error = Some err\<rparr> \<in> set (unsupportedOf pd decoded)"
  unfolding unsupportedOf_def
  by (rule map_filter_member [OF assms(1)]) (use assms(2,3) in auto)

lemma brokenOf_member:
  assumes "dec \<in> set decoded" and "pd (Detection (RawRule dec)) = Inl err"
    and "\<not> ((\<exists>msg. err = ErrUnsupportedToken msg) \<or>
         (\<exists>cond keys msg. err = ErrIncompleteDetection cond keys msg) \<or> err = ErrWip)"
  shows "\<lparr>Path = Rule.Path dec, Reason = [], Error = Some err\<rparr> \<in> set (brokenOf pd decoded)"
  unfolding brokenOf_def
  by (rule map_filter_member [OF assms(1)]) (use assms(2,3) in \<open>cases err; simp\<close>)

lemma compiledOf_member:
  assumes "dec \<in> set decoded" and "pd (Detection (RawRule dec)) = Inr tr"
  shows "\<lparr>tree = Some tr, RawRule = RawRule dec, Path = Rule.Path dec\<rparr> \<in> set (compiledOf pd decoded)"
  unfolding compiledOf_def
  by (rule map_filter_member [OF assms(1)]) (use assms(2) in simp)

lemma groupLoop_Broken: "Broken (groupLoop rules r) = Broken r"
proof (induction rules arbitrary: r)
  case Nil
  show ?case by simp
next
  case (Cons rule rules)
  show ?case by (simp add: Cons.IH split: option.splits)
qed

lemma groupLoop_Unsupported: "prefix (Unsupported r) (Unsupported (groupLoop rules r))"
proof (induction rules arbitrary: r)
  case Nil
  show ?case by simp
next
  case (Cons rule rules)
  show ?case
  proof (cases "Logsource_Product (RawRule rule) = []")
    case True
    let ?r = "r\<lparr>Unsupported := Unsupported r @
               [\<lparr>Path = Rule.Path rule, Reason = ''Missing PRODUCT in LOGSOURCE'',
                 Error = None\<rparr>],
             Total := Total r - 1\<rparr>"
    have "prefix (Unsupported ?r) (Unsupported (groupLoop rules ?r))" by (rule Cons.IH)
    then have "prefix (Unsupported r) (Unsupported (groupLoop rules ?r))"
      by (simp add: append_prefixD)
    with True show ?thesis by simp
  next
    case False
    show ?thesis
    proof (cases "Rules r (Logsource_Product (RawRule rule))")
      case None
      let ?r = "r\<lparr>Rules := (Rules r)(Logsource_Product (RawRule rule) \<mapsto> [rule])\<rparr>"
      have "prefix (Unsupported ?r) (Unsupported (groupLoop rules ?r))" by (rule Cons.IH)
      with False None show ?thesis by simp
    next
      case (Some val)
      let ?r = "r\<lparr>Rules := (Rules r)(Logsource_Product (RawRule rule) \<mapsto> val @ [rule])\<rparr>"
      have "prefix (Unsupported ?r) (Unsupported (groupLoop rules ?r))" by (rule Cons.IH)
      with False Some show ?thesis by simp
    qed
  qed
qed

lemma unsupportedOf_kinds:
  "e \<in> set (unsupportedOf pd decoded) \<Longrightarrow>
   \<exists>err. Error e = Some err \<and>
     ((\<exists>msg. err = ErrUnsupportedToken msg) \<or>
      (\<exists>cond keys msg. err = ErrIncompleteDetection cond keys msg) \<or> err = ErrWip)"
proof (induction decoded)
  case Nil
  then show ?case by (simp add: unsupportedOf_def)
next
  case (Cons dec decoded)
  show ?case
  proof (cases "pd (Detection (RawRule dec))")
    case (Inl err)
    with Cons show ?thesis
      by (cases err) (auto simp: unsupportedOf_def)
  next
    case (Inr tr)
    with Cons show ?thesis by (auto simp: unsupportedOf_def)
  qed
qed

lemma brokenOf_kinds:
  "e \<in> set (brokenOf pd decoded) \<Longrightarrow>
   \<exists>err. Error e = Some err \<and>
     \<not> ((\<exists>msg. err = ErrUnsupportedToken msg) \<or>
        (\<exists>cond keys msg. err = ErrIncompleteDetection cond keys msg) \<or> err = ErrWip)"
proof (induction decoded)
  case Nil
  then show ?case by (simp add: brokenOf_def)
next
  case (Cons dec decoded)
  show ?case
  proof (cases "pd (Detection (RawRule dec))")
    case (Inl err)
    with Cons show ?thesis
      by (cases err) (auto simp: brokenOf_def)
  next
    case (Inr tr)
    with Cons show ?thesis by (auto simp: brokenOf_def)
  qed
qed

lemma CheckLoop_no_match:
  "\<forall>x \<in> set r. \<not> Match (tree x) obj \<Longrightarrow>
   CheckLoop Match r obj firstmatch res =
     (if length res > 0 then (Some res, True) else (None, False))"
  by (induction r) simp_all

lemma CheckLoop_append_no_match:
  "\<forall>x \<in> set pre. \<not> Match (tree x) obj \<Longrightarrow>
   CheckLoop Match (pre @ r) obj firstmatch res = CheckLoop Match r obj firstmatch res"
  by (induction pre) simp_all

text \<open>
  The error of the package \<open>types\<close> that the validator returns is none of the three
  types the type switch names: a rule whose compilation failed with it is entered in
  \<open>Broken\<close>.
\<close>

lemma types_error_is_broken:
  "pd (Detection (RawRule dec)) = Inl (Types_ErrUnsupportedToken msg) \<Longrightarrow>
   decodedloop pd [dec] r rules =
     (r\<lparr>Broken := Broken r @
          [\<lparr>Path = Rule.Path dec, Reason = [],
            Error = Some (Types_ErrUnsupportedToken msg)\<rparr>]\<rparr>, rules)"
  by simp

text \<open>
  C6. A compile error of one rule does not stop the compilation of the others: the loop
  of \<open>NewRuleset\<close> over a batch of decoded rules ends with every rule in one of three
  places, decided by the result of its own compilation. A rule whose error is an
  \<open>ErrUnsupportedToken\<close>, an \<open>ErrIncompleteDetection\<close> or \<open>ErrWip\<close> has its entry in
  \<open>Unsupported\<close>, a rule with any other error has its entry in \<open>Broken\<close>, and a rule
  that compiled is among the compiled rules, each list in the order of the batch.
  Nothing else is added: the entries added to \<open>Unsupported\<close> all carry one of the three
  errors and those added to \<open>Broken\<close> carry none of them. The Ruleset that
  \<open>NewRuleset\<close> returns holds these entries.
\<close>

theorem batch_routing:
  "decodedloop pd decoded r rules =
     (r\<lparr>Unsupported := Unsupported r @ unsupportedOf pd decoded,
        Broken := Broken r @ brokenOf pd decoded\<rparr>,
      rules @ compiledOf pd decoded) \<and>
   length (unsupportedOf pd decoded) + length (brokenOf pd decoded) +
     length (compiledOf pd decoded) = length decoded \<and>
   (\<forall>dec \<in> set decoded. \<forall>err. pd (Detection (RawRule dec)) = Inl err \<longrightarrow>
      (if (\<exists>msg. err = ErrUnsupportedToken msg) \<or>
          (\<exists>cond keys msg. err = ErrIncompleteDetection cond keys msg) \<or> err = ErrWip
       then \<lparr>Path = Rule.Path dec, Reason = [], Error = Some err\<rparr>
              \<in> set (Unsupported (fst (decodedloop pd decoded r rules)))
       else \<lparr>Path = Rule.Path dec, Reason = [], Error = Some err\<rparr>
              \<in> set (Broken (fst (decodedloop pd decoded r rules))))) \<and>
   (\<forall>dec \<in> set decoded. \<forall>tr. pd (Detection (RawRule dec)) = Inr tr \<longrightarrow>
      \<lparr>tree = Some tr, RawRule = RawRule dec, Path = Rule.Path dec\<rparr>
        \<in> set (snd (decodedloop pd decoded r rules))) \<and>
   (\<forall>e \<in> set (unsupportedOf pd decoded). \<exists>err. Error e = Some err \<and>
      ((\<exists>msg. err = ErrUnsupportedToken msg) \<or>
       (\<exists>cond keys msg. err = ErrIncompleteDetection cond keys msg) \<or> err = ErrWip)) \<and>
   (\<forall>e \<in> set (brokenOf pd decoded). \<exists>err. Error e = Some err \<and>
      \<not> ((\<exists>msg. err = ErrUnsupportedToken msg) \<or>
         (\<exists>cond keys msg. err = ErrIncompleteDetection cond keys msg) \<or> err = ErrWip)) \<and>
   Broken (fst (NewRuleset pd r decoded)) = Broken r @ brokenOf pd decoded \<and>
   prefix (Unsupported r @ unsupportedOf pd decoded)
     (Unsupported (fst (NewRuleset pd r decoded)))"
proof -
  let ?r1 = "r\<lparr>Unsupported := Unsupported r @ unsupportedOf pd decoded,
        Broken := Broken r @ brokenOf pd decoded\<rparr>"
  let ?rules = "compiledOf pd decoded"
  have eq: "decodedloop pd decoded r rules = (?r1, rules @ ?rules)"
    by (rule decodedloop_buckets)
  have loop: "decodedloop pd decoded r [] = (?r1, ?rules)"
    using decodedloop_buckets [of pd decoded r "[]"] by simp
  have len: "length (unsupportedOf pd decoded) + length (brokenOf pd decoded) +
     length (compiledOf pd decoded) = length decoded"
    by (rule buckets_length)
  have mem: "\<forall>dec \<in> set decoded. \<forall>err. pd (Detection (RawRule dec)) = Inl err \<longrightarrow>
      (if (\<exists>msg. err = ErrUnsupportedToken msg) \<or>
          (\<exists>cond keys msg. err = ErrIncompleteDetection cond keys msg) \<or> err = ErrWip
       then \<lparr>Path = Rule.Path dec, Reason = [], Error = Some err\<rparr>
              \<in> set (Unsupported (fst (decodedloop pd decoded r rules)))
       else \<lparr>Path = Rule.Path dec, Reason = [], Error = Some err\<rparr>
              \<in> set (Broken (fst (decodedloop pd decoded r rules))))"
  proof (intro ballI allI impI)
    fix dec err
    assume d: "dec \<in> set decoded" and e: "pd (Detection (RawRule dec)) = Inl err"
    show "if (\<exists>msg. err = ErrUnsupportedToken msg) \<or>
          (\<exists>cond keys msg. err = ErrIncompleteDetection cond keys msg) \<or> err = ErrWip
       then \<lparr>Path = Rule.Path dec, Reason = [], Error = Some err\<rparr>
              \<in> set (Unsupported (fst (decodedloop pd decoded r rules)))
       else \<lparr>Path = Rule.Path dec, Reason = [], Error = Some err\<rparr>
              \<in> set (Broken (fst (decodedloop pd decoded r rules)))"
    proof (cases "(\<exists>msg. err = ErrUnsupportedToken msg) \<or>
          (\<exists>cond keys msg. err = ErrIncompleteDetection cond keys msg) \<or> err = ErrWip")
      case True
      with unsupportedOf_member [where pd = pd, OF d e True] show ?thesis by (simp add: eq)
    next
      case False
      with brokenOf_member [where pd = pd, OF d e False] show ?thesis by (simp add: eq)
    qed
  qed
  have cmp: "\<forall>dec \<in> set decoded. \<forall>tr. pd (Detection (RawRule dec)) = Inr tr \<longrightarrow>
      \<lparr>tree = Some tr, RawRule = RawRule dec, Path = Rule.Path dec\<rparr>
        \<in> set (snd (decodedloop pd decoded r rules))"
    using compiledOf_member [of _ decoded pd] by (simp add: eq)
  have uk: "\<forall>e \<in> set (unsupportedOf pd decoded). \<exists>err. Error e = Some err \<and>
      ((\<exists>msg. err = ErrUnsupportedToken msg) \<or>
       (\<exists>cond keys msg. err = ErrIncompleteDetection cond keys msg) \<or> err = ErrWip)"
    using unsupportedOf_kinds [of _ pd decoded] by blast
  have bk: "\<forall>e \<in> set (brokenOf pd decoded). \<exists>err. Error e = Some err \<and>
      \<not> ((\<exists>msg. err = ErrUnsupportedToken msg) \<or>
         (\<exists>cond keys msg. err = ErrIncompleteDetection cond keys msg) \<or> err = ErrWip)"
    using brokenOf_kinds [of _ pd decoded] by blast
  have b: "Broken (fst (NewRuleset pd r decoded)) = Broken r @ brokenOf pd decoded"
    by (simp add: NewRuleset_def loop groupLoop_Broken)
  have u: "prefix (Unsupported r @ unsupportedOf pd decoded)
     (Unsupported (fst (NewRuleset pd r decoded)))"
    using groupLoop_Unsupported [of "?r1\<lparr>Total := int (length ?rules)\<rparr>" ?rules]
    by (simp add: NewRuleset_def loop)
  from eq len mem cmp uk bk b u show ?thesis by (intro conjI)
qed

theorem batch_routing_witness:
  "decodedloop sampleParseDetection
     [\<lparr>tree = None, RawRule = rawRuleOf ''first'' ''windows'' Map.empty, Path = ''a.yml''\<rparr>,
      \<lparr>tree = None,
       RawRule = rawRuleOf ''second'' ''windows''
                   [''condition'' \<mapsto> CString ''selection | count(dns_query) by parent_domain > 1000''],
       Path = ''b.yml''\<rparr>,
      \<lparr>tree = None, RawRule = rawRuleOf ''third'' ''windows'' [''condition'' \<mapsto> CString ''1 of fields*''],
       Path = ''c.yml''\<rparr>,
      \<lparr>tree = None, RawRule = rawRuleOf ''fourth'' ''windows'' [''condition'' \<mapsto> CString ''aaa''],
       Path = ''d.yml''\<rparr>,
      \<lparr>tree = None, RawRule = rawRuleOf ''fifth'' ''windows'' [''condition'' \<mapsto> CString ''aaa or bbb''],
       Path = ''e.yml''\<rparr>]
     \<lparr>dirs = [''rules''], Rules = Map.empty, Total = 0, Unsupported = [], Broken = []\<rparr> [] =
   (\<lparr>dirs = [''rules''], Rules = Map.empty, Total = 0,
     Unsupported =
       [\<lparr>Path = ''b.yml'', Reason = [], Error = Some (ErrUnsupportedToken ''|'')\<rparr>,
        \<lparr>Path = ''c.yml'', Reason = [], Error = Some ErrWip\<rparr>,
        \<lparr>Path = ''d.yml'', Reason = [],
          Error = Some (ErrIncompleteDetection ''aaa'' [] ''missing identifier'')\<rparr>],
     Broken = [\<lparr>Path = ''a.yml'', Reason = [], Error = Some ErrMissingCondition\<rparr>]\<rparr>,
    [\<lparr>tree = Some ''aaa or bbb'',
      RawRule = rawRuleOf ''fifth'' ''windows'' [''condition'' \<mapsto> CString ''aaa or bbb''],
      Path = ''e.yml''\<rparr>])"
  using batch_routing [of sampleParseDetection
     "[\<lparr>tree = None, RawRule = rawRuleOf ''first'' ''windows'' Map.empty, Path = ''a.yml''\<rparr>,
      \<lparr>tree = None,
       RawRule = rawRuleOf ''second'' ''windows''
                   [''condition'' \<mapsto> CString ''selection | count(dns_query) by parent_domain > 1000''],
       Path = ''b.yml''\<rparr>,
      \<lparr>tree = None, RawRule = rawRuleOf ''third'' ''windows'' [''condition'' \<mapsto> CString ''1 of fields*''],
       Path = ''c.yml''\<rparr>,
      \<lparr>tree = None, RawRule = rawRuleOf ''fourth'' ''windows'' [''condition'' \<mapsto> CString ''aaa''],
       Path = ''d.yml''\<rparr>,
      \<lparr>tree = None, RawRule = rawRuleOf ''fifth'' ''windows'' [''condition'' \<mapsto> CString ''aaa or bbb''],
       Path = ''e.yml''\<rparr>]"
     "\<lparr>dirs = [''rules''], Rules = Map.empty, Total = 0, Unsupported = [], Broken = []\<rparr>" "[]"]
  by (simp add: unsupportedOf_def brokenOf_def compiledOf_def sampleParseDetection_def rawRuleOf_def
        del: decodedloop.simps)

text \<open>
  C10. With \<open>firstmatch\<close> set, \<open>Check\<close> returns at the first rule whose tree matches
  the event, whatever rules follow it: the result is the one entry with that rule's
  \<open>Tags\<close>, \<open>ID\<close> and \<open>Title\<close>, and the flag is true. If no rule's tree matches, it
  returns \<open>nil\<close> and false.
\<close>

theorem check_firstmatch:
  "((\<forall>x \<in> set pre. \<not> Match (tree x) obj) \<and> Match (tree rule) obj \<longrightarrow>
      Check Match (pre @ rule # post) obj True =
        (Some [\<lparr>Tags = RawRule.Tags (RawRule rule), ID = RawRule.ID (RawRule rule),
                 Title = RawRule.Title (RawRule rule)\<rparr>], True)) \<and>
   ((\<forall>x \<in> set r. \<not> Match (tree x) obj) \<longrightarrow> Check Match r obj True = (None, False))"
  by (simp add: Check_def CheckLoop_no_match CheckLoop_append_no_match)

theorem check_firstmatch_witness:
  "Check (\<lambda>t obj. t = Some obj)
     [\<lparr>tree = Some ''x'', RawRule = rawRuleOf ''first'' ''windows'' Map.empty, Path = ''a.yml''\<rparr>,
      \<lparr>tree = Some ''y'', RawRule = rawRuleOf ''second'' ''windows'' Map.empty, Path = ''b.yml''\<rparr>,
      \<lparr>tree = Some ''y'', RawRule = rawRuleOf ''third'' ''windows'' Map.empty, Path = ''c.yml''\<rparr>]
     ''y'' True =
     (Some [\<lparr>Tags = [], ID = [], Title = ''second''\<rparr>], True) \<and>
   Check (\<lambda>t obj. t = Some obj)
     [\<lparr>tree = Some ''x'', RawRule = rawRuleOf ''first'' ''windows'' Map.empty, Path = ''a.yml''\<rparr>]
     ''y'' True = (None, False)"
  using check_firstmatch
          [of "[\<lparr>tree = Some ''x'', RawRule = rawRuleOf ''first'' ''windows'' Map.empty,
                 Path = ''a.yml''\<rparr>]"
              "\<lambda>t obj. t = Some obj" "''y''"
              "\<lparr>tree = Some ''y'', RawRule = rawRuleOf ''second'' ''windows'' Map.empty,
                Path = ''b.yml''\<rparr>"
              "[\<lparr>tree = Some ''y'', RawRule = rawRuleOf ''third'' ''windows'' Map.empty,
                 Path = ''c.yml''\<rparr>]"
              "[\<lparr>tree = Some ''x'', RawRule = rawRuleOf ''first'' ''windows'' Map.empty,
                 Path = ''a.yml''\<rparr>]"]
  by (simp add: rawRuleOf_def)

end
